theory Spec2Isabelle
  imports Main "HOL-Library.Word"
begin

unbundle bit_operations_syntax

section \<open>libdebug command-line arguments (src/libdebug/dcmdarg.cpp)\<close>

subsection \<open>Flags of dflags.h\<close>

text \<open>
  \<open>debug_level::types\<close> and \<open>debug_format::type\<close> are bit sets; the code reads the
  enabled levels through \<open>to_ulong()\<close> and masks the format with an \<open>unsigned long\<close>,
  so both are words of the width of \<open>unsigned long\<close> here.
\<close>

type_synonym ulong = "64 word"

text \<open>
  Modelled from the spec: the enumeration \<open>debug_level::flag\<close> of dflags.h is not among
  the sources. The spec gives five severity levels, one bit each, ordered
  \<open>dump < info < warn < error < fatal\<close>, with \<open>none\<close> (no bit) and \<open>all\<close> (the five
  bits); the bits are taken in that order from bit 0.
\<close>

definition debug_level_none :: ulong where
  "debug_level_none = 0"

definition debug_level_dump :: ulong where
  "debug_level_dump = push_bit 0 1"

definition debug_level_info :: ulong where
  "debug_level_info = push_bit 1 1"

definition debug_level_warn :: ulong where
  "debug_level_warn = push_bit 2 1"

definition debug_level_error :: ulong where
  "debug_level_error = push_bit 3 1"

definition debug_level_fatal :: ulong where
  "debug_level_fatal = push_bit 4 1"

definition debug_level_all :: ulong where
  "debug_level_all =
     debug_level_dump OR debug_level_info OR debug_level_warn OR debug_level_error
       OR debug_level_fatal"

text \<open>
  Modelled from the spec: the enumeration \<open>debug_format::flag\<close> of dflags.h is not among
  the sources. The spec gives the format flags one independent color bit; it is bit 3
  here, and bits 0, 1, 2 and 4 stand for the other format flags.
\<close>

definition debug_format_color :: ulong where
  "debug_format_color = push_bit 3 1"

subsection \<open>The argument holder\<close>

text \<open>
  \<open>struct DebugCmdArgs\<close>. \<open>gboolean\<close> fields are tested for truth only and are
  \<open>bool\<close>; \<open>gint\<close> is a 32-bit signed integer, compared through \<open>sint\<close>.
\<close>

record DebugCmdArgs =
  verbose :: bool
  quiet :: bool
  verbosity_level :: "32 word"
  debug_levels :: "string list"
  debug_colorize :: bool
  levels_enabled :: ulong

text \<open>
  The constructor: the member initialisers, then the two conditional blocks. Whether
  \<open>_WIN32\<close> and \<open>DEBUG_BUILD\<close> are defined is a parameter each. A default-constructed
  bit set has no bit set.
\<close>

definition DebugCmdArgs_new :: "bool \<Rightarrow> bool \<Rightarrow> DebugCmdArgs" where
  "DebugCmdArgs_new win32 debug_build =
     (let args = \<lparr> verbose = False, quiet = False, verbosity_level = 3, debug_levels = [],
                   debug_colorize = True, levels_enabled = 0 \<rparr>;
          args = (if win32 then args\<lparr> verbose := True, debug_colorize := False \<rparr> else args);
          args = (if debug_build then args\<lparr> verbosity_level := 5 \<rparr> else args)
      in args)"

subsection \<open>The post-parse hook: resolution of the enabled levels\<close>

text \<open>
  Lines 108 to 135 of \<open>debug_internal_post_parse_func\<close>: the value assigned to
  \<open>args->levels_enabled\<close>. \<open>std::find(...) != end()\<close> is membership in the list.
\<close>

definition resolve_levels :: "DebugCmdArgs \<Rightarrow> ulong" where
  "resolve_levels args =
     (if debug_levels args \<noteq> [] then
        (let l = debug_level_none;
             l = l OR (if ''dump'' \<in> set (debug_levels args)
                       then debug_level_dump else debug_level_none);
             l = l OR (if ''info'' \<in> set (debug_levels args)
                       then debug_level_info else debug_level_none);
             l = l OR (if ''warn'' \<in> set (debug_levels args)
                       then debug_level_warn else debug_level_none);
             l = l OR (if ''error'' \<in> set (debug_levels args)
                       then debug_level_error else debug_level_none);
             l = l OR (if ''fatal'' \<in> set (debug_levels args)
                       then debug_level_fatal else debug_level_none)
         in l)
      else if quiet args then debug_level_none
      else if verbose args then debug_level_all
      else
        (let l = debug_level_none;
             l = (if 0 < sint (verbosity_level args) then l OR debug_level_fatal else l);
             l = (if 1 < sint (verbosity_level args) then l OR debug_level_error else l);
             l = (if 2 < sint (verbosity_level args) then l OR debug_level_warn else l);
             l = (if 3 < sint (verbosity_level args) then l OR debug_level_info else l);
             l = (if 4 < sint (verbosity_level args) then l OR debug_level_dump else l)
         in l))"

subsection \<open>The post-parse hook: propagation to the registered streams\<close>

text \<open>
  Modelled from the spec: the class \<open>DebugOutStream\<close> (dstream.h) and the registry
  types of \<open>DebugState\<close> (dstate.h) are not among the sources. A logger has an enabled
  flag, written by \<open>set_enabled\<close>, and format flags, read by \<open>get_format\<close> and written
  by \<open>set_format\<close>. The registry maps a domain name to a map from level bit to logger;
  every entry holds a logger of its own, and the hook changes those two fields of each
  entry. Both maps are association lists in the order of iteration.
\<close>

record DebugOutStream =
  enabled :: bool
  format :: ulong

definition set_enabled :: "bool \<Rightarrow> DebugOutStream \<Rightarrow> DebugOutStream" where
  "set_enabled b s = s\<lparr> enabled := b \<rparr>"

definition get_format :: "DebugOutStream \<Rightarrow> ulong" where
  "get_format s = format s"

definition set_format :: "ulong \<Rightarrow> DebugOutStream \<Rightarrow> DebugOutStream" where
  "set_format f s = s\<lparr> format := f \<rparr>"

type_synonym level_map_t = "(ulong \<times> DebugOutStream) list"
type_synonym domain_map_t = "(string \<times> level_map_t) list"

text \<open>The body of the inner loop, lines 145 to 153, on the entry \<open>(first, second)\<close>.\<close>

definition update_stream :: "ulong \<Rightarrow> bool \<Rightarrow> ulong \<Rightarrow> DebugOutStream \<Rightarrow> DebugOutStream" where
  "update_stream levels_enabled_ulong color_enabled first second =
     (let second = set_enabled (levels_enabled_ulong AND first \<noteq> 0) second;
          fmt = get_format second;
          fmt = (if color_enabled then fmt OR debug_format_color
                 else fmt AND NOT debug_format_color)
      in set_format fmt second)"

text \<open>The inner loop over one domain's level map, and the outer loop over the domains.\<close>

primrec update_level_map :: "ulong \<Rightarrow> bool \<Rightarrow> level_map_t \<Rightarrow> level_map_t" where
  "update_level_map l c [] = []"
| "update_level_map l c (iter2 # rest) =
     (fst iter2, update_stream l c (fst iter2) (snd iter2)) # update_level_map l c rest"

primrec update_domain_map :: "ulong \<Rightarrow> bool \<Rightarrow> domain_map_t \<Rightarrow> domain_map_t" where
  "update_domain_map l c [] = []"
| "update_domain_map l c (iter # rest) =
     (fst iter, update_level_map l c (snd iter)) # update_domain_map l c rest"

text \<open>
  The whole hook: it stores the resolved levels in the holder, updates every stream of the
  registry and returns true.
\<close>

definition debug_internal_post_parse_func ::
    "DebugCmdArgs \<Rightarrow> domain_map_t \<Rightarrow> bool \<times> DebugCmdArgs \<times> domain_map_t" where
  "debug_internal_post_parse_func args dm =
     (let args = args\<lparr> levels_enabled := resolve_levels args \<rparr>;
          color_enabled = debug_colorize args;
          levels_enabled_ulong = levels_enabled args
      in (True, args, update_domain_map levels_enabled_ulong color_enabled dm))"

subsection \<open>The callback of the option \<open>--debug-levels\<close>\<close>

text \<open>
  Modelled from the spec: \<open>hz::string_split\<close> (hz/string_algo.h) is not among the
  sources. By the spec the callback splits the option's value on commas and ignores empty
  segments. The call gives the helper the string, the delimiter, the holder's list as the
  container to fill and the flag to skip empty segments; the helper adds the segments at
  the end of the container. \<open>split_at d str\<close> is the list of the segments of \<open>str\<close>
  between the occurrences of \<open>d\<close>.
\<close>

primrec split_at :: "char \<Rightarrow> string \<Rightarrow> string list" where
  "split_at d [] = [[]]"
| "split_at d (c # cs) =
     (if c = d then [] # split_at d cs
      else (case split_at d cs of [] \<Rightarrow> [[c]] | s # ss \<Rightarrow> (c # s) # ss))"

definition string_split :: "string \<Rightarrow> char \<Rightarrow> string list \<Rightarrow> bool \<Rightarrow> string list" where
  "string_split str delimiter append_here skip_empty =
     append_here @
       (if skip_empty then filter (\<lambda>s. s \<noteq> []) (split_at delimiter str)
        else split_at delimiter str)"

text \<open>
  \<open>debug_internal_parse_levels\<close>: the value is \<open>None\<close> for a null pointer. The result is
  the returned flag and the holder.
\<close>

definition debug_internal_parse_levels :: "string option \<Rightarrow> DebugCmdArgs \<Rightarrow> bool \<times> DebugCmdArgs" where
  "debug_internal_parse_levels val args =
     (case val of
        None \<Rightarrow> (False, args)
      | Some levels \<Rightarrow>
          (True, args\<lparr> debug_levels := string_split levels CHR '','' (debug_levels args) True \<rparr>))"

text \<open>The callback invoked once for each value of a sequence, on the same holder.\<close>

definition parse_levels_seq :: "string option list \<Rightarrow> DebugCmdArgs \<Rightarrow> DebugCmdArgs" where
  "parse_levels_seq vals args = fold (\<lambda>val a. snd (debug_internal_parse_levels val a)) vals args"

subsection \<open>Notions of the specification\<close>

text \<open>The bit of a level name; a name that is not one of the five has no bit.\<close>

definition level_of_name :: "string \<Rightarrow> ulong" where
  "level_of_name s =
     (if s = ''dump'' then debug_level_dump
      else if s = ''info'' then debug_level_info
      else if s = ''warn'' then debug_level_warn
      else if s = ''error'' then debug_level_error
      else if s = ''fatal'' then debug_level_fatal
      else debug_level_none)"

text \<open>The OR of the bits of the names of a list, taken one after the other.\<close>

definition or_of_names :: "string list \<Rightarrow> ulong" where
  "or_of_names names = fold (\<lambda>s l. l OR level_of_name s) names debug_level_none"

text \<open>The numeric fallback as a function of the verbosity level alone.\<close>

definition numeric_levels :: "int \<Rightarrow> ulong" where
  "numeric_levels v =
     (if 0 < v then debug_level_fatal else debug_level_none)
     OR (if 1 < v then debug_level_error else debug_level_none)
     OR (if 2 < v then debug_level_warn else debug_level_none)
     OR (if 3 < v then debug_level_info else debug_level_none)
     OR (if 4 < v then debug_level_dump else debug_level_none)"

text \<open>The segments that one invocation of the callback contributes.\<close>

definition segments_of :: "string option \<Rightarrow> string list" where
  "segments_of val =
     (case val of None \<Rightarrow> [] | Some levels \<Rightarrow> filter (\<lambda>s. s \<noteq> []) (split_at CHR '','' levels))"

text \<open>The segments of a list put together again, with the delimiter between them.\<close>

primrec join_with :: "char \<Rightarrow> string list \<Rightarrow> string" where
  "join_with d [] = []"
| "join_with d (s # ss) = (if ss = [] then s else s @ d # join_with d ss)"

text \<open>
  The entry at position \<open>j\<close> of the level map of the domain at position \<open>i\<close>: its level
  bit and its logger.
\<close>

definition level_at :: "domain_map_t \<Rightarrow> nat \<Rightarrow> nat \<Rightarrow> ulong" where
  "level_at dm i j = fst (snd (dm ! i) ! j)"

definition stream_at :: "domain_map_t \<Rightarrow> nat \<Rightarrow> nat \<Rightarrow> DebugOutStream" where
  "stream_at dm i j = snd (snd (dm ! i) ! j)"

subsection \<open>Sample inputs\<close>

text \<open>A holder with every switch set and level names on the command line.\<close>

definition sample_args :: DebugCmdArgs where
  "sample_args =
     \<lparr> verbose = True, quiet = True, verbosity_level = 1,
       debug_levels = [''warn'', ''bogus'', ''error'', ''warn''],
       debug_colorize = False, levels_enabled = 0 \<rparr>"

text \<open>A registry of two domains; the format flags differ from logger to logger.\<close>

definition sample_registry :: domain_map_t where
  "sample_registry =
     [(''app'',
        [(debug_level_info, \<lparr> enabled = True, format = 0 \<rparr>),
         (debug_level_fatal, \<lparr> enabled = False, format = 31 \<rparr>)]),
      (''default'',
        [(debug_level_dump, \<lparr> enabled = True, format = 15 \<rparr>),
         (debug_level_warn, \<lparr> enabled = False, format = 21 \<rparr>),
         (debug_level_error, \<lparr> enabled = True, format = 8 \<rparr>)])]"

section \<open>Basic facts\<close>

lemma debug_level_values:
  "debug_level_none = 0" "debug_level_dump = 1" "debug_level_info = 2"
  "debug_level_warn = 4" "debug_level_error = 8" "debug_level_fatal = 16"
  "debug_level_all = 31"
  by (simp_all add: debug_level_none_def debug_level_dump_def debug_level_info_def
      debug_level_warn_def debug_level_error_def debug_level_fatal_def debug_level_all_def)

lemma post_parse_func_eq:
  "debug_internal_post_parse_func a dm =
     (True, a\<lparr> levels_enabled := resolve_levels a \<rparr>,
      update_domain_map (resolve_levels a) (debug_colorize a) dm)"
  by (simp add: debug_internal_post_parse_func_def Let_def)

lemma resolve_levels_cong:
  "debug_levels b = debug_levels a \<Longrightarrow> quiet b = quiet a \<Longrightarrow> verbose b = verbose a \<Longrightarrow>
   verbosity_level b = verbosity_level a \<Longrightarrow> resolve_levels b = resolve_levels a"
  by (simp add: resolve_levels_def)

subsection \<open>The branch of the explicit level names\<close>

text \<open>The five assignments of the branch, as one expression over the list.\<close>

lemma resolve_names:
  "debug_levels a \<noteq> [] \<Longrightarrow>
   resolve_levels a =
     (if ''dump'' \<in> set (debug_levels a) then debug_level_dump else 0)
     OR (if ''info'' \<in> set (debug_levels a) then debug_level_info else 0)
     OR (if ''warn'' \<in> set (debug_levels a) then debug_level_warn else 0)
     OR (if ''error'' \<in> set (debug_levels a) then debug_level_error else 0)
     OR (if ''fatal'' \<in> set (debug_levels a) then debug_level_fatal else 0)"
  by (simp add: resolve_levels_def Let_def debug_level_values)

lemma fold_or_acc:
  "fold (\<lambda>s l. l OR level_of_name s) xs acc
     = acc OR fold (\<lambda>s l. l OR level_of_name s) xs 0"
proof (induction xs arbitrary: acc)
  case Nil
  show ?case by simp
next
  case (Cons x xs)
  have "fold (\<lambda>s l. l OR level_of_name s) (x # xs) acc
      = (acc OR level_of_name x) OR fold (\<lambda>s l. l OR level_of_name s) xs 0"
    using Cons.IH [of "acc OR level_of_name x"] by simp
  also have "\<dots> = acc OR (level_of_name x OR fold (\<lambda>s l. l OR level_of_name s) xs 0)"
    by (simp add: or.assoc)
  also have "level_of_name x OR fold (\<lambda>s l. l OR level_of_name s) xs 0
      = fold (\<lambda>s l. l OR level_of_name s) (x # xs) 0"
    using Cons.IH [of "0 OR level_of_name x"] by simp
  finally show ?case .
qed

lemma or_of_names_Cons: "or_of_names (x # xs) = level_of_name x OR or_of_names xs"
  unfolding or_of_names_def debug_level_none_def
  using fold_or_acc [of xs "0 OR level_of_name x"] by simp

lemma or_of_names_set:
  "or_of_names xs =
     (if ''dump'' \<in> set xs then debug_level_dump else 0)
     OR (if ''info'' \<in> set xs then debug_level_info else 0)
     OR (if ''warn'' \<in> set xs then debug_level_warn else 0)
     OR (if ''error'' \<in> set xs then debug_level_error else 0)
     OR (if ''fatal'' \<in> set xs then debug_level_fatal else 0)"
proof (induction xs)
  case Nil
  show ?case by (simp add: or_of_names_def debug_level_none_def)
next
  case (Cons x xs)
  show ?case
    unfolding or_of_names_Cons Cons.IH
    by (simp add: level_of_name_def debug_level_values)
qed

lemma resolve_or_of_names: "debug_levels a \<noteq> [] \<Longrightarrow> resolve_levels a = or_of_names (debug_levels a)"
  by (simp only: resolve_names or_of_names_set simp_thms)

lemma or_of_names_bits:
  "or_of_names xs AND debug_level_dump \<noteq> 0 \<longleftrightarrow> ''dump'' \<in> set xs"
  "or_of_names xs AND debug_level_info \<noteq> 0 \<longleftrightarrow> ''info'' \<in> set xs"
  "or_of_names xs AND debug_level_warn \<noteq> 0 \<longleftrightarrow> ''warn'' \<in> set xs"
  "or_of_names xs AND debug_level_error \<noteq> 0 \<longleftrightarrow> ''error'' \<in> set xs"
  "or_of_names xs AND debug_level_fatal \<noteq> 0 \<longleftrightarrow> ''fatal'' \<in> set xs"
  by (simp_all add: or_of_names_set debug_level_values)

lemma or_of_names_valid: "or_of_names xs AND NOT debug_level_all = 0"
  by (simp add: or_of_names_set debug_level_values)

subsection \<open>The numeric branch\<close>

lemma resolve_numeric:
  "debug_levels a = [] \<Longrightarrow> \<not> quiet a \<Longrightarrow> \<not> verbose a \<Longrightarrow>
   resolve_levels a = numeric_levels (sint (verbosity_level a))"
  by (simp add: resolve_levels_def numeric_levels_def Let_def debug_level_values)

lemma numeric_levels_cases:
  "numeric_levels v =
     (if v \<le> 0 then 0 else if v = 1 then 16 else if v = 2 then 24
      else if v = 3 then 28 else if v = 4 then 30 else 31)"
  by (simp add: numeric_levels_def debug_level_values)

lemma numeric_levels_mono: "v1 \<le> v2 \<Longrightarrow> numeric_levels v1 AND NOT (numeric_levels v2) = 0"
  by (simp add: numeric_levels_cases)

subsection \<open>The loops over the registry\<close>

lemma update_level_map_map:
  "update_level_map l c lm = map (\<lambda>e. (fst e, update_stream l c (fst e) (snd e))) lm"
  by (induction lm) simp_all

lemma update_domain_map_map:
  "update_domain_map l c dm = map (\<lambda>e. (fst e, update_level_map l c (snd e))) dm"
  by (induction dm) simp_all

lemma length_update_domain_map: "length (update_domain_map l c dm) = length dm"
  by (simp add: update_domain_map_map)

lemma domain_update_domain_map:
  "i < length dm \<Longrightarrow> fst (update_domain_map l c dm ! i) = fst (dm ! i)"
  by (simp add: update_domain_map_map)

lemma levels_update_domain_map:
  "i < length dm \<Longrightarrow> snd (update_domain_map l c dm ! i) = update_level_map l c (snd (dm ! i))"
  by (simp add: update_domain_map_map)

lemma level_at_update:
  "i < length dm \<Longrightarrow> j < length (snd (dm ! i)) \<Longrightarrow>
   level_at (update_domain_map l c dm) i j = level_at dm i j"
  by (simp add: level_at_def levels_update_domain_map update_level_map_map)

lemma stream_at_update:
  "i < length dm \<Longrightarrow> j < length (snd (dm ! i)) \<Longrightarrow>
   stream_at (update_domain_map l c dm) i j
     = update_stream l c (level_at dm i j) (stream_at dm i j)"
  by (simp add: level_at_def stream_at_def levels_update_domain_map update_level_map_map)

lemma enabled_update_stream: "enabled (update_stream l c b s) = (l AND b \<noteq> 0)"
  by (simp add: update_stream_def set_enabled_def get_format_def set_format_def Let_def)

lemma format_update_stream:
  "format (update_stream l c b s) =
     (if c then format s OR debug_format_color else format s AND NOT debug_format_color)"
  by (simp add: update_stream_def set_enabled_def get_format_def set_format_def Let_def)

lemma update_stream_idem: "update_stream l c b (update_stream l c b s) = update_stream l c b s"
  by (simp add: update_stream_def set_enabled_def get_format_def set_format_def Let_def
      or.assoc and.assoc)

lemma update_level_map_idem:
  "update_level_map l c (update_level_map l c lm) = update_level_map l c lm"
  by (induction lm) (simp_all add: update_stream_idem)

lemma update_domain_map_idem:
  "update_domain_map l c (update_domain_map l c dm) = update_domain_map l c dm"
  by (induction dm) (simp_all add: update_level_map_idem)

subsection \<open>Setting and clearing one mask\<close>

lemma or_and_not_self: "(x OR m) AND NOT m = x AND NOT (m :: ulong)"
  by (rule bit_eqI) (auto simp add: bit_simps)

lemma and_not_and_self: "(x AND NOT m) AND m = (0 :: ulong)"
  by (rule bit_eqI) (auto simp add: bit_simps)

lemma or_and_self: "(x OR m) AND m = (m :: ulong)"
  by (rule bit_eqI) (auto simp add: bit_simps)

lemma color_nonzero: "debug_format_color \<noteq> 0"
  by (simp add: debug_format_color_def)

lemma bit_color: "bit debug_format_color n \<longleftrightarrow> n = 3"
  unfolding debug_format_color_def
  by (simp only: bit_push_bit_iff bit_1_iff) auto

lemma format_update_color:
  "format (update_stream l c b s) AND debug_format_color \<noteq> 0 \<longleftrightarrow> c"
  by (simp add: format_update_stream or_and_self and_not_and_self color_nonzero)

lemma format_update_others:
  "format (update_stream l c b s) AND NOT debug_format_color = format s AND NOT debug_format_color"
  by (simp add: format_update_stream or_and_not_self and.assoc)

lemma format_update_bit:
  "bit (format (update_stream l c b s)) n
     \<longleftrightarrow> (if bit debug_format_color n then c else bit (format s) n)"
  by (auto simp add: format_update_stream bit_simps dest: bit_imp_le_length)

subsection \<open>Splitting and the callback\<close>

lemma split_at_not_Nil: "split_at d str \<noteq> []"
  by (induction str) (simp_all split: list.splits)

lemma split_at_no_delimiter: "s \<in> set (split_at d str) \<Longrightarrow> d \<notin> set s"
  by (induction str arbitrary: s) (auto split: if_splits list.splits)

lemma join_split_at: "join_with d (split_at d str) = str"
  by (induction str) (auto simp add: split_at_not_Nil split: list.splits)

lemma split_at_sample: "split_at CHR '','' ''warn,,error,'' = [''warn'', [], ''error'', []]"
  by simp

lemma parse_levels_Some:
  "debug_internal_parse_levels (Some s) a =
     (True, a\<lparr> debug_levels := debug_levels a @ segments_of (Some s) \<rparr>)"
  by (simp add: debug_internal_parse_levels_def string_split_def segments_of_def)

lemma parse_levels_None: "debug_internal_parse_levels None a = (False, a)"
  by (simp add: debug_internal_parse_levels_def)

lemma parse_levels_step:
  "snd (debug_internal_parse_levels v a) = a\<lparr> debug_levels := debug_levels a @ segments_of v \<rparr>"
  by (cases v) (simp_all add: parse_levels_Some parse_levels_None segments_of_def)

lemma parse_levels_seq_eq:
  "parse_levels_seq vs a = a\<lparr> debug_levels := debug_levels a @ concat (map segments_of vs) \<rparr>"
  unfolding parse_levels_seq_def
  by (induction vs arbitrary: a) (simp_all add: parse_levels_step)

section \<open>Resolution of the enabled levels\<close>

text \<open>
  Claim C1. The hook settles the enabled levels in one of four branches, tried in this
  order: level names were given; else quiet; else verbose; else the numeric level. With
  level names, the result is the one of the names whatever quiet, verbose and the numeric
  level are. Without names and with quiet, it is \<open>none\<close> whatever verbose and the numeric
  level are. Without names, not quiet and verbose, it is \<open>all\<close> whatever the numeric level
  is. Otherwise it is a function of the numeric level. In particular quiet wins over
  verbose when no name is given.
\<close>

theorem resolve_precedence:
  "(debug_levels a \<noteq> [] \<longrightarrow>
      resolve_levels (a\<lparr> quiet := q, verbose := v, verbosity_level := n \<rparr>) = resolve_levels a
      \<and> resolve_levels a = or_of_names (debug_levels a))
   \<and> (debug_levels a = [] \<and> quiet a \<longrightarrow>
      resolve_levels (a\<lparr> verbose := v, verbosity_level := n \<rparr>) = debug_level_none)
   \<and> (debug_levels a = [] \<and> \<not> quiet a \<and> verbose a \<longrightarrow>
      resolve_levels (a\<lparr> verbosity_level := n \<rparr>) = debug_level_all)
   \<and> (debug_levels a = [] \<and> \<not> quiet a \<and> \<not> verbose a \<longrightarrow>
      resolve_levels a = numeric_levels (sint (verbosity_level a)))
   \<and> (debug_levels a = [] \<and> quiet a \<and> verbose a \<longrightarrow> resolve_levels a = debug_level_none)"
proof (intro conjI impI)
  assume "debug_levels a \<noteq> []"
  then show "resolve_levels (a\<lparr> quiet := q, verbose := v, verbosity_level := n \<rparr>) = resolve_levels a"
    by (simp add: resolve_levels_def)
next
  assume "debug_levels a \<noteq> []"
  then show "resolve_levels a = or_of_names (debug_levels a)"
    by (rule resolve_or_of_names)
next
  assume "debug_levels a = [] \<and> quiet a"
  then show "resolve_levels (a\<lparr> verbose := v, verbosity_level := n \<rparr>) = debug_level_none"
    by (simp add: resolve_levels_def)
next
  assume "debug_levels a = [] \<and> \<not> quiet a \<and> verbose a"
  then show "resolve_levels (a\<lparr> verbosity_level := n \<rparr>) = debug_level_all"
    by (simp add: resolve_levels_def)
next
  assume "debug_levels a = [] \<and> \<not> quiet a \<and> \<not> verbose a"
  then show "resolve_levels a = numeric_levels (sint (verbosity_level a))"
    by (simp add: resolve_numeric)
next
  assume "debug_levels a = [] \<and> quiet a \<and> verbose a"
  then show "resolve_levels a = debug_level_none"
    by (simp add: resolve_levels_def)
qed

theorem resolve_precedence_witness:
  "resolve_levels sample_args = debug_level_warn OR debug_level_error
   \<and> resolve_levels (sample_args\<lparr> quiet := False, verbose := False, verbosity_level := 5 \<rparr>)
       = debug_level_warn OR debug_level_error
   \<and> resolve_levels (sample_args\<lparr> debug_levels := [] \<rparr>) = debug_level_none
   \<and> resolve_levels (sample_args\<lparr> debug_levels := [], verbose := False, verbosity_level := 5 \<rparr>)
       = debug_level_none
   \<and> resolve_levels (sample_args\<lparr> debug_levels := [], quiet := False \<rparr>) = debug_level_all
   \<and> resolve_levels (sample_args\<lparr> debug_levels := [], quiet := False, verbosity_level := 0 \<rparr>)
       = debug_level_all
   \<and> resolve_levels (sample_args\<lparr> debug_levels := [], quiet := False, verbose := False \<rparr>)
       = debug_level_fatal"
proof -
  have "resolve_levels sample_args = debug_level_warn OR debug_level_error
      \<and> resolve_levels (sample_args\<lparr> quiet := False, verbose := False, verbosity_level := 5 \<rparr>)
        = debug_level_warn OR debug_level_error"
    using resolve_precedence [where a = sample_args and q = False and v = False and n = 5]
    by (simp add: sample_args_def or_of_names_def level_of_name_def debug_level_values)
  moreover have "resolve_levels (sample_args\<lparr> debug_levels := [] \<rparr>) = debug_level_none
      \<and> resolve_levels (sample_args\<lparr> debug_levels := [], verbose := False, verbosity_level := 5 \<rparr>)
        = debug_level_none"
    using resolve_precedence [where a = "sample_args\<lparr> debug_levels := [] \<rparr>"
        and v = False and n = 5]
    by (simp add: sample_args_def)
  moreover have "resolve_levels (sample_args\<lparr> debug_levels := [], quiet := False \<rparr>) = debug_level_all
      \<and> resolve_levels (sample_args\<lparr> debug_levels := [], quiet := False, verbosity_level := 0 \<rparr>)
        = debug_level_all"
    using resolve_precedence [where a = "sample_args\<lparr> debug_levels := [], quiet := False \<rparr>"
        and n = 0]
      resolve_precedence [where a = "sample_args\<lparr> debug_levels := [], quiet := False \<rparr>"
        and n = 1]
    by (simp add: sample_args_def)
  moreover have "resolve_levels (sample_args\<lparr> debug_levels := [], quiet := False, verbose := False \<rparr>)
      = debug_level_fatal"
    using resolve_precedence [where a = "sample_args\<lparr> debug_levels := [], quiet := False,
        verbose := False \<rparr>"]
    by (simp add: sample_args_def numeric_levels_cases debug_level_values)
  ultimately show ?thesis by simp
qed

text \<open>
  Claim C2. When level names were given, the resolved set is the OR of the bits of the
  names of the list, where a name that is not one of the five has no bit, whatever quiet,
  verbose and the numeric level are: the bit of a level is set exactly when its name occurs
  in the list, however often, and no other bit is set.
\<close>

theorem resolve_explicit_levels:
  assumes "debug_levels a \<noteq> []"
  shows "resolve_levels a = or_of_names (debug_levels a)
    \<and> resolve_levels (a\<lparr> quiet := q, verbose := v, verbosity_level := n \<rparr>)
        = or_of_names (debug_levels a)
    \<and> (resolve_levels a AND debug_level_dump \<noteq> 0 \<longleftrightarrow> ''dump'' \<in> set (debug_levels a))
    \<and> (resolve_levels a AND debug_level_info \<noteq> 0 \<longleftrightarrow> ''info'' \<in> set (debug_levels a))
    \<and> (resolve_levels a AND debug_level_warn \<noteq> 0 \<longleftrightarrow> ''warn'' \<in> set (debug_levels a))
    \<and> (resolve_levels a AND debug_level_error \<noteq> 0 \<longleftrightarrow> ''error'' \<in> set (debug_levels a))
    \<and> (resolve_levels a AND debug_level_fatal \<noteq> 0 \<longleftrightarrow> ''fatal'' \<in> set (debug_levels a))
    \<and> resolve_levels a AND NOT debug_level_all = 0"
proof -
  have e: "resolve_levels a = or_of_names (debug_levels a)"
    using assms by (rule resolve_or_of_names)
  have "resolve_levels (a\<lparr> quiet := q, verbose := v, verbosity_level := n \<rparr>)
      = or_of_names (debug_levels a)"
    using assms resolve_or_of_names [of "a\<lparr> quiet := q, verbose := v, verbosity_level := n \<rparr>"]
    by simp
  then show ?thesis
    by (simp only: e or_of_names_bits or_of_names_valid simp_thms)
qed

theorem resolve_explicit_levels_witness:
  "debug_levels sample_args \<noteq> []
   \<and> quiet sample_args \<and> verbose sample_args
   \<and> resolve_levels sample_args = debug_level_warn OR debug_level_error
   \<and> resolve_levels (sample_args\<lparr> quiet := False, verbose := False, verbosity_level := 5 \<rparr>)
       = debug_level_warn OR debug_level_error
   \<and> resolve_levels sample_args AND debug_level_dump = 0
   \<and> resolve_levels sample_args AND debug_level_info = 0
   \<and> resolve_levels sample_args AND debug_level_warn \<noteq> 0
   \<and> resolve_levels sample_args AND debug_level_error \<noteq> 0
   \<and> resolve_levels sample_args AND debug_level_fatal = 0"
proof -
  have h: "debug_levels sample_args \<noteq> []"
    by (simp add: sample_args_def)
  have n: "or_of_names (debug_levels sample_args) = debug_level_warn OR debug_level_error"
    by (simp add: sample_args_def or_of_names_def level_of_name_def debug_level_values)
  have m: "set (debug_levels sample_args) = {''warn'', ''bogus'', ''error''}"
    by (auto simp add: sample_args_def)
  have q: "quiet sample_args \<and> verbose sample_args"
    by (simp add: sample_args_def)
  show ?thesis
    using resolve_explicit_levels [OF h, where q = False and v = False and n = 5] h q
    by (simp add: n m debug_level_values)
qed

text \<open>
  Claim C3. Without level names, not quiet and not verbose, the resolved set starts at
  \<open>none\<close> and has fatal exactly for a level above 0, error above 1, warn above 2, info
  above 3 and dump above 4. So a level that is enabled has every more severe level enabled
  with it, a numeric level of 0 or less gives \<open>none\<close>, and one of 5 or more gives \<open>all\<close>.
\<close>

theorem resolve_numeric_fallback:
  assumes "debug_levels a = []" and "\<not> quiet a" and "\<not> verbose a"
  shows "resolve_levels a = numeric_levels (sint (verbosity_level a))
    \<and> (resolve_levels a AND debug_level_fatal \<noteq> 0 \<longleftrightarrow> 0 < sint (verbosity_level a))
    \<and> (resolve_levels a AND debug_level_error \<noteq> 0 \<longleftrightarrow> 1 < sint (verbosity_level a))
    \<and> (resolve_levels a AND debug_level_warn \<noteq> 0 \<longleftrightarrow> 2 < sint (verbosity_level a))
    \<and> (resolve_levels a AND debug_level_info \<noteq> 0 \<longleftrightarrow> 3 < sint (verbosity_level a))
    \<and> (resolve_levels a AND debug_level_dump \<noteq> 0 \<longleftrightarrow> 4 < sint (verbosity_level a))
    \<and> resolve_levels a AND NOT debug_level_all = 0
    \<and> (resolve_levels a AND debug_level_dump \<noteq> 0 \<longrightarrow> resolve_levels a AND debug_level_info \<noteq> 0)
    \<and> (resolve_levels a AND debug_level_info \<noteq> 0 \<longrightarrow> resolve_levels a AND debug_level_warn \<noteq> 0)
    \<and> (resolve_levels a AND debug_level_warn \<noteq> 0 \<longrightarrow> resolve_levels a AND debug_level_error \<noteq> 0)
    \<and> (resolve_levels a AND debug_level_error \<noteq> 0 \<longrightarrow> resolve_levels a AND debug_level_fatal \<noteq> 0)
    \<and> (sint (verbosity_level a) \<le> 0 \<longrightarrow> resolve_levels a = debug_level_none)
    \<and> (5 \<le> sint (verbosity_level a) \<longrightarrow> resolve_levels a = debug_level_all)"
proof -
  have r: "resolve_levels a = numeric_levels (sint (verbosity_level a))"
    using assms by (rule resolve_numeric)
  show ?thesis
    unfolding r by (simp add: numeric_levels_cases debug_level_values)
qed

theorem resolve_numeric_fallback_witness:
  "debug_levels (DebugCmdArgs_new False False) = []
   \<and> \<not> quiet (DebugCmdArgs_new False False) \<and> \<not> verbose (DebugCmdArgs_new False False)
   \<and> sint (verbosity_level (DebugCmdArgs_new False False)) = 3
   \<and> resolve_levels (DebugCmdArgs_new False False)
       = debug_level_fatal OR debug_level_error OR debug_level_warn
   \<and> resolve_levels (DebugCmdArgs_new False False) AND debug_level_info = 0
   \<and> resolve_levels (DebugCmdArgs_new False False) AND debug_level_dump = 0
   \<and> resolve_levels (DebugCmdArgs_new False True) = debug_level_all
   \<and> resolve_levels ((DebugCmdArgs_new False False)\<lparr> verbosity_level := - 7 \<rparr>) = debug_level_none
   \<and> resolve_levels ((DebugCmdArgs_new False False)\<lparr> verbosity_level := 2000 \<rparr>) = debug_level_all"
proof -
  have h: "debug_levels (DebugCmdArgs_new False d) = []"
    "\<not> quiet (DebugCmdArgs_new False d)" "\<not> verbose (DebugCmdArgs_new False d)" for d
    by (simp_all add: DebugCmdArgs_new_def Let_def)
  have hv: "debug_levels ((DebugCmdArgs_new False False)\<lparr> verbosity_level := x \<rparr>) = []"
    "\<not> quiet ((DebugCmdArgs_new False False)\<lparr> verbosity_level := x \<rparr>)"
    "\<not> verbose ((DebugCmdArgs_new False False)\<lparr> verbosity_level := x \<rparr>)" for x
    by (simp_all add: DebugCmdArgs_new_def Let_def)
  have v: "sint (verbosity_level (DebugCmdArgs_new False False)) = 3"
    "sint (verbosity_level (DebugCmdArgs_new False True)) = 5"
    by (simp_all add: DebugCmdArgs_new_def Let_def)
  have w: "sint (- 7 :: 32 word) = - 7" "sint (2000 :: 32 word) = 2000"
    by simp_all
  show ?thesis
    using resolve_numeric_fallback [OF h(1) h(2) h(3), of False]
      resolve_numeric_fallback [OF h(1) h(2) h(3), of True]
      resolve_numeric_fallback [OF hv(1) hv(2) hv(3), of "- 7"]
      resolve_numeric_fallback [OF hv(1) hv(2) hv(3), of 2000]
    by (simp add: h v w numeric_levels_cases debug_level_values)
qed

text \<open>
  Claim C6. For every holder and registry the hook returns true, and the set it stores in
  the holder has no bit outside the five level bits.
\<close>

theorem resolve_total_valid:
  "fst (debug_internal_post_parse_func a dm) = True
   \<and> levels_enabled (fst (snd (debug_internal_post_parse_func a dm))) = resolve_levels a
   \<and> resolve_levels a AND NOT debug_level_all = 0"
proof -
  have "resolve_levels a AND NOT debug_level_all = 0"
  proof (cases "debug_levels a = []")
    case True
    show ?thesis
    proof (cases "quiet a \<or> verbose a")
      case True
      with \<open>debug_levels a = []\<close> show ?thesis
        by (auto simp add: resolve_levels_def debug_level_values)
    next
      case False
      with \<open>debug_levels a = []\<close> show ?thesis
        by (simp add: resolve_numeric numeric_levels_cases debug_level_values)
    qed
  next
    case False
    then show ?thesis
      by (simp add: resolve_or_of_names or_of_names_valid)
  qed
  then show ?thesis
    by (simp add: post_parse_func_eq)
qed

theorem resolve_total_valid_witness:
  "fst (debug_internal_post_parse_func sample_args sample_registry) = True
   \<and> levels_enabled (fst (snd (debug_internal_post_parse_func sample_args sample_registry)))
       = debug_level_warn OR debug_level_error
   \<and> levels_enabled (fst (snd (debug_internal_post_parse_func
         (sample_args\<lparr> debug_levels := [''bogus''] \<rparr>) sample_registry))) = debug_level_none
   \<and> levels_enabled (fst (snd (debug_internal_post_parse_func
         ((DebugCmdArgs_new False False)\<lparr> verbosity_level := - 7 \<rparr>) sample_registry)))
       = debug_level_none
   \<and> levels_enabled (fst (snd (debug_internal_post_parse_func
         ((DebugCmdArgs_new False False)\<lparr> verbosity_level := 2000 \<rparr>) sample_registry)))
       = debug_level_all"
proof -
  have "resolve_levels sample_args = debug_level_warn OR debug_level_error"
    "resolve_levels (sample_args\<lparr> debug_levels := [''bogus''] \<rparr>) = debug_level_none"
    "resolve_levels ((DebugCmdArgs_new False False)\<lparr> verbosity_level := - 7 \<rparr>) = debug_level_none"
    "resolve_levels ((DebugCmdArgs_new False False)\<lparr> verbosity_level := 2000 \<rparr>) = debug_level_all"
    by (simp_all add: sample_args_def DebugCmdArgs_new_def resolve_levels_def Let_def
        debug_level_values)
  then show ?thesis
    using resolve_total_valid [of sample_args sample_registry]
      resolve_total_valid [of "sample_args\<lparr> debug_levels := [''bogus''] \<rparr>" sample_registry]
      resolve_total_valid [of "(DebugCmdArgs_new False False)\<lparr> verbosity_level := - 7 \<rparr>"
        sample_registry]
      resolve_total_valid [of "(DebugCmdArgs_new False False)\<lparr> verbosity_level := 2000 \<rparr>"
        sample_registry]
    by simp
qed

text \<open>
  Claim C7. In the numeric branch the resolved set grows with the numeric level: for
  \<open>v1 \<le> v2\<close> (as signed integers) every bit of the set for \<open>v1\<close> is a bit of the set for
  \<open>v2\<close>. The level 0 gives \<open>none\<close>, a level of 5 or more gives \<open>all\<close>.
\<close>

theorem resolve_numeric_monotone:
  assumes "debug_levels a = []" and "\<not> quiet a" and "\<not> verbose a"
    and "sint v1 \<le> sint v2"
  shows "resolve_levels (a\<lparr> verbosity_level := v1 \<rparr>)
           AND NOT (resolve_levels (a\<lparr> verbosity_level := v2 \<rparr>)) = 0
    \<and> (resolve_levels (a\<lparr> verbosity_level := v1 \<rparr>) AND b \<noteq> 0
        \<longrightarrow> resolve_levels (a\<lparr> verbosity_level := v2 \<rparr>) AND b \<noteq> 0)
    \<and> resolve_levels (a\<lparr> verbosity_level := 0 \<rparr>) = debug_level_none
    \<and> (5 \<le> sint v2 \<longrightarrow> resolve_levels (a\<lparr> verbosity_level := v2 \<rparr>) = debug_level_all)"
proof -
  have r: "resolve_levels (a\<lparr> verbosity_level := v \<rparr>) = numeric_levels (sint v)" for v
    using assms(1-3) resolve_numeric [of "a\<lparr> verbosity_level := v \<rparr>"] by simp
  have sub: "numeric_levels (sint v1) AND NOT (numeric_levels (sint v2)) = 0"
    using assms(4) by (rule numeric_levels_mono)
  have "numeric_levels (sint v2) AND b \<noteq> 0" if "numeric_levels (sint v1) AND b \<noteq> 0"
  proof
    assume z: "numeric_levels (sint v2) AND b = 0"
    have "numeric_levels (sint v1) AND b
        = (numeric_levels (sint v1) AND NOT (numeric_levels (sint v2))) AND b
          OR (numeric_levels (sint v1) AND (numeric_levels (sint v2) AND b))"
      by (rule bit_eqI) (auto simp add: bit_simps)
    then have "numeric_levels (sint v1) AND b = 0"
      by (simp add: sub z)
    with that show False by simp
  qed
  moreover have "numeric_levels (sint (0 :: 32 word)) = debug_level_none"
    by (simp add: numeric_levels_cases debug_level_values)
  moreover have "5 \<le> sint v2 \<longrightarrow> numeric_levels (sint v2) = debug_level_all"
    by (simp add: numeric_levels_cases debug_level_values)
  ultimately show ?thesis
    unfolding r using sub by simp
qed

theorem resolve_numeric_monotone_witness:
  "sint (2 :: 32 word) \<le> sint (4 :: 32 word)
   \<and> resolve_levels ((DebugCmdArgs_new False False)\<lparr> verbosity_level := 2 \<rparr>)
       = debug_level_fatal OR debug_level_error
   \<and> resolve_levels ((DebugCmdArgs_new False False)\<lparr> verbosity_level := 4 \<rparr>)
       = debug_level_fatal OR debug_level_error OR debug_level_warn OR debug_level_info
   \<and> resolve_levels ((DebugCmdArgs_new False False)\<lparr> verbosity_level := 2 \<rparr>)
        AND NOT (resolve_levels ((DebugCmdArgs_new False False)\<lparr> verbosity_level := 4 \<rparr>)) = 0
   \<and> resolve_levels ((DebugCmdArgs_new False False)\<lparr> verbosity_level := 0 \<rparr>) = debug_level_none"
proof -
  have h: "debug_levels (DebugCmdArgs_new False False) = []"
    "\<not> quiet (DebugCmdArgs_new False False)" "\<not> verbose (DebugCmdArgs_new False False)"
    by (simp_all add: DebugCmdArgs_new_def Let_def)
  have le: "sint (2 :: 32 word) \<le> sint (4 :: 32 word)"
    by simp
  have v: "resolve_levels ((DebugCmdArgs_new False False)\<lparr> verbosity_level := 2 \<rparr>)
        = debug_level_fatal OR debug_level_error"
      "resolve_levels ((DebugCmdArgs_new False False)\<lparr> verbosity_level := 4 \<rparr>)
        = debug_level_fatal OR debug_level_error OR debug_level_warn OR debug_level_info"
    by (simp_all add: DebugCmdArgs_new_def resolve_levels_def Let_def debug_level_values)
  show ?thesis
    using resolve_numeric_monotone [OF h le, of debug_level_fatal] le
    by (simp add: v)
qed

section \<open>Propagation to the registry\<close>

text \<open>
  Claim C4. The hook keeps the domains, the level bits and the number of loggers of the
  registry, and after it every logger is enabled exactly when the level bit it is
  registered under is a bit of the enabled levels: the test is on that bit, not on the set
  being non-empty. This holds for any registry and any set of levels, and so for the set
  that the hook resolves.
\<close>

theorem propagate_enabled_by_level_bit:
  assumes "i < length dm" and "j < length (snd (dm ! i))"
  shows "length (update_domain_map l c dm) = length dm
    \<and> fst (update_domain_map l c dm ! i) = fst (dm ! i)
    \<and> length (snd (update_domain_map l c dm ! i)) = length (snd (dm ! i))
    \<and> level_at (update_domain_map l c dm) i j = level_at dm i j
    \<and> (enabled (stream_at (update_domain_map l c dm) i j) \<longleftrightarrow> l AND level_at dm i j \<noteq> 0)
    \<and> (enabled (stream_at (snd (snd (debug_internal_post_parse_func a dm))) i j)
        \<longleftrightarrow> resolve_levels a AND level_at dm i j \<noteq> 0)"
  using assms
  by (simp add: length_update_domain_map domain_update_domain_map levels_update_domain_map
      update_level_map_map level_at_update stream_at_update enabled_update_stream
      post_parse_func_eq)

theorem propagate_enabled_by_level_bit_witness:
  "0 < length sample_registry \<and> 1 < length (snd (sample_registry ! 0))
   \<and> level_at sample_registry 0 1 = debug_level_fatal
   \<and> enabled (stream_at (update_domain_map (debug_level_warn OR debug_level_error) True sample_registry) 0 1)
       = False
   \<and> 1 < length sample_registry \<and> 2 < length (snd (sample_registry ! 1))
   \<and> level_at sample_registry 1 2 = debug_level_error
   \<and> enabled (stream_at (update_domain_map (debug_level_warn OR debug_level_error) True sample_registry) 1 2)
       = True"
proof -
  have a: "0 < length sample_registry" "1 < length (snd (sample_registry ! 0))"
    by (simp_all add: sample_registry_def)
  have b: "1 < length sample_registry" "2 < length (snd (sample_registry ! 1))"
    by (simp_all add: sample_registry_def)
  have k: "level_at sample_registry 0 1 = debug_level_fatal"
    "level_at sample_registry 1 2 = debug_level_error"
    by (simp_all add: sample_registry_def level_at_def)
  have "enabled (stream_at (update_domain_map (debug_level_warn OR debug_level_error) True
        sample_registry) 0 1) = False"
    using propagate_enabled_by_level_bit [OF a, where l = "debug_level_warn OR debug_level_error"
        and c = True]
    unfolding k by (simp add: debug_level_values)
  moreover have "enabled (stream_at (update_domain_map (debug_level_warn OR debug_level_error) True
        sample_registry) 1 2) = True"
    using propagate_enabled_by_level_bit [OF b, where l = "debug_level_warn OR debug_level_error"
        and c = True]
    unfolding k by (simp add: debug_level_values)
  ultimately show ?thesis
    using a b k by simp
qed

text \<open>
  Claim C5. For every logger of the registry the hook writes back the format flags it
  read with the color bit set when colors are enabled and cleared when they are not; every
  other bit of the format keeps the value it had before.
\<close>

theorem propagate_color_bit_only:
  assumes "i < length dm" and "j < length (snd (dm ! i))"
  shows "(format (stream_at (update_domain_map l c dm) i j) AND debug_format_color \<noteq> 0 \<longleftrightarrow> c)
    \<and> format (stream_at (update_domain_map l c dm) i j) AND NOT debug_format_color
        = format (stream_at dm i j) AND NOT debug_format_color
    \<and> (bit (format (stream_at (update_domain_map l c dm) i j)) n
        \<longleftrightarrow> (if bit debug_format_color n then c else bit (format (stream_at dm i j)) n))
    \<and> format (stream_at (snd (snd (debug_internal_post_parse_func a dm))) i j)
        = (if debug_colorize a then format (stream_at dm i j) OR debug_format_color
           else format (stream_at dm i j) AND NOT debug_format_color)"
proof -
  have s: "stream_at (update_domain_map l' c' dm) i j
      = update_stream l' c' (level_at dm i j) (stream_at dm i j)" for l' c'
    using assms by (rule stream_at_update)
  have "format (stream_at (snd (snd (debug_internal_post_parse_func a dm))) i j)
      = (if debug_colorize a then format (stream_at dm i j) OR debug_format_color
         else format (stream_at dm i j) AND NOT debug_format_color)"
    by (simp only: post_parse_func_eq snd_conv s format_update_stream)
  then show ?thesis
    by (simp only: s format_update_color format_update_others format_update_bit simp_thms)
qed

theorem propagate_color_bit_only_witness:
  "1 < length sample_registry \<and> 0 < length (snd (sample_registry ! 1))
   \<and> format (stream_at sample_registry 1 0) = 15
   \<and> format (stream_at (update_domain_map debug_level_all False sample_registry) 1 0)
        AND debug_format_color = 0
   \<and> format (stream_at (update_domain_map debug_level_all False sample_registry) 1 0)
        AND NOT debug_format_color = 7
   \<and> format (stream_at (snd (snd (debug_internal_post_parse_func sample_args sample_registry))) 1 0)
       = 7"
proof -
  have a: "1 < length sample_registry" "0 < length (snd (sample_registry ! 1))"
    by (simp_all add: sample_registry_def)
  have f: "format (stream_at sample_registry 1 0) = 15"
    by (simp add: sample_registry_def stream_at_def)
  have c: "\<not> debug_colorize sample_args"
    by (simp add: sample_args_def)
  have "format (stream_at (update_domain_map debug_level_all False sample_registry) 1 0)
        AND debug_format_color = 0
      \<and> format (stream_at (update_domain_map debug_level_all False sample_registry) 1 0)
        AND NOT debug_format_color = 7
      \<and> format (stream_at (snd (snd (debug_internal_post_parse_func sample_args sample_registry))) 1 0)
       = 7"
    using propagate_color_bit_only [OF a, where l = debug_level_all and c = False
        and a = sample_args]
    unfolding f by (simp add: c debug_format_color_def)
  then show ?thesis
    using a f by simp
qed

text \<open>
  Claim C8. Updating the registry twice with the same levels and color setting gives the
  registry that one update gives; so does running the whole hook again on the holder and
  the registry that it left.
\<close>

theorem propagate_idempotent:
  "update_domain_map l c (update_domain_map l c dm) = update_domain_map l c dm
   \<and> debug_internal_post_parse_func (fst (snd (debug_internal_post_parse_func a dm)))
        (snd (snd (debug_internal_post_parse_func a dm)))
      = debug_internal_post_parse_func a dm"
  by (simp add: post_parse_func_eq update_domain_map_idem
      resolve_levels_cong [of "a\<lparr> levels_enabled := resolve_levels a \<rparr>" a])

theorem propagate_idempotent_witness:
  "update_domain_map (debug_level_warn OR debug_level_error) False sample_registry =
     [(''app'',
        [(debug_level_info, \<lparr> enabled = False, format = 0 \<rparr>),
         (debug_level_fatal, \<lparr> enabled = False, format = 23 \<rparr>)]),
      (''default'',
        [(debug_level_dump, \<lparr> enabled = False, format = 7 \<rparr>),
         (debug_level_warn, \<lparr> enabled = True, format = 21 \<rparr>),
         (debug_level_error, \<lparr> enabled = True, format = 0 \<rparr>)])]
   \<and> update_domain_map (debug_level_warn OR debug_level_error) False
        (update_domain_map (debug_level_warn OR debug_level_error) False sample_registry)
       = update_domain_map (debug_level_warn OR debug_level_error) False sample_registry"
proof -
  have "update_domain_map (debug_level_warn OR debug_level_error) False sample_registry =
     [(''app'',
        [(debug_level_info, \<lparr> enabled = False, format = 0 \<rparr>),
         (debug_level_fatal, \<lparr> enabled = False, format = 23 \<rparr>)]),
      (''default'',
        [(debug_level_dump, \<lparr> enabled = False, format = 7 \<rparr>),
         (debug_level_warn, \<lparr> enabled = True, format = 21 \<rparr>),
         (debug_level_error, \<lparr> enabled = True, format = 0 \<rparr>)])]"
    by (simp add: sample_registry_def update_stream_def set_enabled_def get_format_def
        set_format_def Let_def debug_level_values debug_format_color_def)
  then show ?thesis
    using propagate_idempotent [of "debug_level_warn OR debug_level_error" False sample_registry
        sample_args]
    by simp
qed

section \<open>The holder as constructed\<close>

text \<open>
  Claim C10. The holder as constructed without \<open>_WIN32\<close> and without \<open>DEBUG_BUILD\<close>
  is not verbose, not quiet, at level 3, without level names and colorized. The hook
  resolves it to fatal, error and warn, sets the color bit of every logger of the registry,
  and enables a logger exactly when its level bit is one of those three.
\<close>

theorem default_args_levels_and_color:
  assumes "i < length dm" and "j < length (snd (dm ! i))"
  shows "DebugCmdArgs_new False False
      = \<lparr> verbose = False, quiet = False, verbosity_level = 3, debug_levels = [],
          debug_colorize = True, levels_enabled = debug_level_none \<rparr>
    \<and> levels_enabled (fst (snd (debug_internal_post_parse_func (DebugCmdArgs_new False False) dm)))
      = debug_level_fatal OR debug_level_error OR debug_level_warn
    \<and> format (stream_at
          (snd (snd (debug_internal_post_parse_func (DebugCmdArgs_new False False) dm))) i j)
        AND debug_format_color \<noteq> 0
    \<and> (enabled (stream_at
          (snd (snd (debug_internal_post_parse_func (DebugCmdArgs_new False False) dm))) i j)
        \<longleftrightarrow> (debug_level_fatal OR debug_level_error OR debug_level_warn) AND level_at dm i j \<noteq> 0)"
proof -
  have d: "DebugCmdArgs_new False False
      = \<lparr> verbose = False, quiet = False, verbosity_level = 3, debug_levels = [],
          debug_colorize = True, levels_enabled = debug_level_none \<rparr>"
    by (simp add: DebugCmdArgs_new_def Let_def debug_level_none_def)
  have r: "resolve_levels (DebugCmdArgs_new False False)
      = debug_level_fatal OR debug_level_error OR debug_level_warn"
    by (simp add: DebugCmdArgs_new_def resolve_levels_def Let_def debug_level_values)
  have c: "debug_colorize (DebugCmdArgs_new False False)"
    by (simp add: DebugCmdArgs_new_def Let_def)
  have s: "stream_at (update_domain_map l' c' dm) i j
      = update_stream l' c' (level_at dm i j) (stream_at dm i j)" for l' c'
    using assms by (rule stream_at_update)
  have "levels_enabled (fst (snd (debug_internal_post_parse_func (DebugCmdArgs_new False False) dm)))
      = debug_level_fatal OR debug_level_error OR debug_level_warn
    \<and> format (stream_at
          (snd (snd (debug_internal_post_parse_func (DebugCmdArgs_new False False) dm))) i j)
        AND debug_format_color \<noteq> 0
    \<and> (enabled (stream_at
          (snd (snd (debug_internal_post_parse_func (DebugCmdArgs_new False False) dm))) i j)
        \<longleftrightarrow> (debug_level_fatal OR debug_level_error OR debug_level_warn) AND level_at dm i j \<noteq> 0)"
    by (simp add: post_parse_func_eq r c s format_update_color enabled_update_stream)
  with d show ?thesis
    by (rule conjI)
qed

theorem default_args_levels_and_color_witness:
  "1 < length sample_registry \<and> 1 < length (snd (sample_registry ! 1))
   \<and> level_at sample_registry 1 1 = debug_level_warn
   \<and> format (stream_at sample_registry 1 1) AND debug_format_color = 0
   \<and> \<not> enabled (stream_at sample_registry 1 1)
   \<and> format (stream_at (snd (snd (debug_internal_post_parse_func (DebugCmdArgs_new False False)
          sample_registry))) 1 1) AND debug_format_color \<noteq> 0
   \<and> enabled (stream_at (snd (snd (debug_internal_post_parse_func (DebugCmdArgs_new False False)
          sample_registry))) 1 1)"
proof -
  have a: "1 < length sample_registry" "1 < length (snd (sample_registry ! 1))"
    by (simp_all add: sample_registry_def)
  have k: "level_at sample_registry 1 1 = debug_level_warn"
    by (simp add: sample_registry_def level_at_def)
  have f: "format (stream_at sample_registry 1 1) AND debug_format_color = 0"
    "\<not> enabled (stream_at sample_registry 1 1)"
    by (simp_all add: sample_registry_def stream_at_def debug_format_color_def)
  have "format (stream_at (snd (snd (debug_internal_post_parse_func (DebugCmdArgs_new False False)
          sample_registry))) 1 1) AND debug_format_color \<noteq> 0
      \<and> enabled (stream_at (snd (snd (debug_internal_post_parse_func (DebugCmdArgs_new False False)
          sample_registry))) 1 1)"
    using default_args_levels_and_color [OF a, THEN conjunct2]
    unfolding k by (simp add: debug_level_values)
  then show ?thesis
    using a k f by simp
qed

section \<open>Accumulation of the level names\<close>

text \<open>
  Claim C9. The callback of \<open>--debug-levels\<close> returns false on a null value and leaves
  the holder as it is. On a string it returns true and appends the non-empty segments
  between the commas to the list of the holder, which it does not clear. After any sequence
  of invocations the list is the initial one followed by the segments of every value, in
  order.
\<close>

theorem parse_levels_accumulates:
  "debug_internal_parse_levels None a = (False, a)
   \<and> debug_internal_parse_levels (Some s) a =
       (True, a\<lparr> debug_levels :=
                  debug_levels a @ filter (\<lambda>x. x \<noteq> []) (split_at CHR '','' s) \<rparr>)
   \<and> parse_levels_seq vals a
       = a\<lparr> debug_levels := debug_levels a @ concat (map segments_of vals) \<rparr>"
  by (simp add: parse_levels_None parse_levels_Some parse_levels_seq_eq segments_of_def)

theorem parse_levels_accumulates_witness:
  "debug_internal_parse_levels None sample_args = (False, sample_args)
   \<and> debug_levels (snd (debug_internal_parse_levels (Some ''dump,,fatal,'') sample_args))
       = [''warn'', ''bogus'', ''error'', ''warn'', ''dump'', ''fatal'']
   \<and> debug_levels (parse_levels_seq [Some ''warn,,error'', None, Some '',info'', Some []]
         (DebugCmdArgs_new False False))
       = [''warn'', ''error'', ''info'']"
proof -
  have d: "debug_levels sample_args = [''warn'', ''bogus'', ''error'', ''warn'']"
    "debug_levels (DebugCmdArgs_new False False) = []"
    by (simp_all add: sample_args_def DebugCmdArgs_new_def Let_def)
  show ?thesis
    using parse_levels_accumulates [of sample_args "''dump,,fatal,''"
        "[Some ''warn,,error'', None, Some '',info'', Some []]"]
      parse_levels_accumulates [of "DebugCmdArgs_new False False" "''dump,,fatal,''"
        "[Some ''warn,,error'', None, Some '',info'', Some []]"]
    by (simp add: d segments_of_def)
qed

end
